theory Spec2Isabelle
  imports Complex_Main "HOL-Library.AList"
begin

section \<open>Values and exceptions of the Python program\<close>

text \<open>
  Values decoded from the wire by \<^verbatim>\<open>json.loads\<close>, and the values the proxy sends back.
  Python's \<^verbatim>\<open>None\<close> is \<open>JNull\<close>. A number is kept as the exact rational it denotes; the
  float that Python holds is the double nearest to it. Strings are lists of 8-bit
  characters, so the model covers ASCII text.
\<close>

datatype json =
    JNull
  | JBool bool
  | JNum rat
  | JStr string
  | JArr "json list"
  | JObj "(string \<times> json) list"

text \<open>The exceptions the modelled code can raise.\<close>

datatype exn = AttributeError | TypeError | KeyError | IndexError | ValueError

text \<open>Truth value of a Python object, as \<^verbatim>\<open>if x\<close> and \<^verbatim>\<open>not x\<close> compute it.\<close>

fun truthy :: "json \<Rightarrow> bool" where
  "truthy JNull = False"
| "truthy (JBool b) = b"
| "truthy (JNum r) = (r \<noteq> 0)"
| "truthy (JStr s) = (s \<noteq> [])"
| "truthy (JArr xs) = (xs \<noteq> [])"
| "truthy (JObj kvs) = (kvs \<noteq> [])"

text \<open>\<^verbatim>\<open>len(x)\<close>: defined on strings, lists and dicts, a TypeError elsewhere.\<close>

fun py_len :: "json \<Rightarrow> exn + nat" where
  "py_len (JStr s) = Inr (length s)"
| "py_len (JArr xs) = Inr (length xs)"
| "py_len (JObj kvs) = Inr (length kvs)"
| "py_len _ = Inl TypeError"

text \<open>
  \<^verbatim>\<open>x[i]\<close> for a literal index \<open>i \<ge> 0\<close>: an element of a list, a one-character string
  of a string, a KeyError on a dict (whose keys are strings), a TypeError elsewhere.
\<close>

fun py_index :: "json \<Rightarrow> nat \<Rightarrow> exn + json" where
  "py_index (JArr xs) i = (if i < length xs then Inr (xs ! i) else Inl IndexError)"
| "py_index (JStr s) i = (if i < length s then Inr (JStr [s ! i]) else Inl IndexError)"
| "py_index (JObj kvs) i = Inl KeyError"
| "py_index _ i = Inl TypeError"

text \<open>\<^verbatim>\<open>str.lower\<close> and \<^verbatim>\<open>str.startswith\<close> on ASCII strings.\<close>

definition lower_char :: "char \<Rightarrow> char" where
  "lower_char c =
     (let n = (of_char c :: nat) in if 65 \<le> n \<and> n \<le> 90 then char_of (n + 32) else c)"

definition lower :: "string \<Rightarrow> string" where
  "lower s = map lower_char s"

definition startswith :: "string \<Rightarrow> string \<Rightarrow> bool" where
  "startswith s p = (take (length p) s = p)"

section \<open>Hexadecimal numerals\<close>

text \<open>\<^verbatim>\<open>hex(n)\<close> for \<open>n \<ge> 0\<close>: the prefix \<^verbatim>\<open>0x\<close> and the lowercase digits, no leading zero.\<close>

definition hexdigit :: "nat \<Rightarrow> char" where
  "hexdigit d = ''0123456789abcdef'' ! d"

fun hexdigits :: "nat \<Rightarrow> string" where
  "hexdigits n = (if n < 16 then [hexdigit n] else hexdigits (n div 16) @ [hexdigit (n mod 16)])"

declare hexdigits.simps [simp del]

definition hex :: "nat \<Rightarrow> string" where
  "hex n = ''0x'' @ hexdigits n"

text \<open>
  \<^verbatim>\<open>int(s, 16)\<close>: surrounding whitespace is stripped, then an optional sign, an optional
  \<^verbatim>\<open>0x\<close> or \<^verbatim>\<open>0X\<close> prefix (after which one underscore may stand), then hexadecimal digits
  with single underscores between them. Anything else is a ValueError, here \<open>None\<close>.
\<close>

definition is_space :: "char \<Rightarrow> bool" where
  "is_space c = (let n = (of_char c :: nat) in (9 \<le> n \<and> n \<le> 13) \<or> (28 \<le> n \<and> n \<le> 32))"

definition hexval :: "char \<Rightarrow> nat option" where
  "hexval c =
     (let n = (of_char c :: nat) in
      if 48 \<le> n \<and> n \<le> 57 then Some (n - 48)
      else if 97 \<le> n \<and> n \<le> 102 then Some (n - 87)
      else if 65 \<le> n \<and> n \<le> 70 then Some (n - 55)
      else None)"

text \<open>
  The digit scan: \<open>us\<close> tells whether the previous character was an underscore, \<open>acc\<close> is
  the value read so far and \<open>k\<close> the number of digits. It stops at the first character
  that is neither a digit nor an underscore and fails on a doubled or trailing underscore.
\<close>

fun scan_digits :: "bool \<Rightarrow> nat \<Rightarrow> nat \<Rightarrow> string \<Rightarrow> (nat \<times> nat \<times> string) option" where
  "scan_digits us acc k [] = (if us then None else Some (acc, k, []))"
| "scan_digits us acc k (c # cs) =
     (if c = CHR ''_'' then (if us then None else scan_digits True acc k cs)
      else case hexval c of
             Some d \<Rightarrow> scan_digits False (16 * acc + d) (Suc k) cs
           | None \<Rightarrow> (if us then None else Some (acc, k, c # cs)))"

definition strip_sign :: "string \<Rightarrow> int \<times> string" where
  "strip_sign s =
     (case s of
        c # r \<Rightarrow> (if c = CHR ''+'' then (1, r) else if c = CHR ''-'' then (- 1, r) else (1, s))
      | [] \<Rightarrow> (1, s))"

definition strip_prefix :: "string \<Rightarrow> string" where
  "strip_prefix s =
     (if startswith s ''0x'' \<or> startswith s ''0X''
      then (let r = drop 2 s in if startswith r ''_'' then drop 1 r else r)
      else s)"

definition int_hex :: "string \<Rightarrow> int option" where
  "int_hex s =
     (let (sign, s2) = strip_sign (dropWhile is_space s);
          s3 = strip_prefix s2
      in if startswith s3 ''_'' then None
         else case scan_digits False 0 0 s3 of
                None \<Rightarrow> None
              | Some (v, k, rest) \<Rightarrow>
                  if k = 0 then None
                  else if dropWhile is_space rest = [] then Some (sign * int v)
                  else None)"

section \<open>Job tracking\<close>

text \<open>
  A \<^verbatim>\<open>Job\<close> with its five slots; \<open>created\<close> is the clock reading \<^verbatim>\<open>time.time()\<close> taken
  by the constructor, passed to the model by the caller.
\<close>

record Job =
  job_id :: string
  header_hash :: string
  seed_hash :: string
  boundary :: string
  created :: rat

text \<open>
  The \<^verbatim>\<open>JobManager\<close>. A Python dict keeps its keys in insertion order, assignment to
  a present key keeps its place and assignment to a new key appends: this is
  \<open>AList.update\<close>; \<^verbatim>\<open>pop(k, None)\<close> is \<open>AList.delete\<close>, lookup is \<open>map_of\<close>.
\<close>

record JobManager =
  jobs :: "(string \<times> Job) list"
  current_job :: "Job option"
  counter :: nat
  by_header :: "(string \<times> Job) list"

definition new_manager :: JobManager where
  "new_manager = \<lparr>jobs = [], current_job = None, counter = 0, by_header = []\<rparr>"

text \<open>
  One round of the pruning loop: \<^verbatim>\<open>j = self.jobs.pop(oid, None)\<close>, and when a job was
  popped, \<^verbatim>\<open>self._by_header.pop(j.header_hash.lower(), None)\<close>.
\<close>

definition evict :: "string \<Rightarrow> JobManager \<Rightarrow> JobManager" where
  "evict oid jm =
     (case map_of (jobs jm) oid of
        None \<Rightarrow> jm
      | Some j \<Rightarrow> jm\<lparr>jobs := AList.delete oid (jobs jm),
                     by_header := AList.delete (lower (header_hash j)) (by_header jm)\<rparr>)"

text \<open>
  \<^verbatim>\<open>sorted(self.jobs.keys(), key=lambda x: int(x, 16))[:-20]\<close>: a stable sort of the
  keys by their numeric value, without its last 20 elements. It is computed only when
  every key parses.
\<close>

definition old_ids :: "(string \<times> Job) list \<Rightarrow> string list" where
  "old_ids js =
     (let ks = sort_key (\<lambda>x. the (int_hex x)) (map fst js)
      in take (length ks - 20) ks)"

text \<open>
  The pruning block of \<^verbatim>\<open>poll_work\<close>. A key that \<^verbatim>\<open>int(x, 16)\<close> rejects raises
  ValueError out of \<^verbatim>\<open>sorted\<close>, before any job is popped.
\<close>

definition prune :: "JobManager \<Rightarrow> exn + JobManager" where
  "prune jm =
     (if length (jobs jm) > 20
      then (if list_all (\<lambda>k. int_hex k \<noteq> None) (map fst (jobs jm))
            then Inr (fold evict (old_ids (jobs jm)) jm)
            else Inl ValueError)
      else Inr jm)"

text \<open>
  The state of \<^verbatim>\<open>poll_work\<close> after the new job is stored in both dicts and made current,
  before the pruning block.
\<close>

definition store_job :: "Job \<Rightarrow> JobManager \<Rightarrow> JobManager" where
  "store_job job jm =
     jm\<lparr>counter := counter jm + 1,
        jobs := AList.update (job_id job) job (jobs jm),
        by_header := AList.update (lower (header_hash job)) job (by_header jm),
        current_job := Some job\<rparr>"

text \<open>
  The job that \<^verbatim>\<open>poll_work\<close> constructs: \<^verbatim>\<open>job_id = hex(self._counter)\<close> for the
  incremented counter \<open>n\<close>, the three fields read from \<^verbatim>\<open>result[0]\<close>, \<^verbatim>\<open>result[1]\<close>,
  \<^verbatim>\<open>result[2]\<close>, and the clock.
\<close>

definition make_job :: "nat \<Rightarrow> string list \<Rightarrow> rat \<Rightarrow> Job" where
  "make_job n r now =
     \<lparr>job_id = hex n, header_hash = r ! 0, seed_hash = r ! 1, boundary = r ! 2, created = now\<rparr>"

text \<open>
  \<^verbatim>\<open>JobManager.poll_work\<close>. \<open>result\<close> is what \<^verbatim>\<open>self.rpc.get_work()\<close> returned (typed
  \<^verbatim>\<open>list | None\<close>, a list of strings by its docstring), \<open>now\<close> the clock reading. The
  function returns its outcome, a job, \<^verbatim>\<open>None\<close> or an exception, and the manager as
  the call leaves it.
\<close>

definition poll_work ::
  "string list option \<Rightarrow> rat \<Rightarrow> JobManager \<Rightarrow> (exn + Job option) \<times> JobManager" where
  "poll_work result now jm =
     (case result of
        None \<Rightarrow> (Inr None, jm)
      | Some r \<Rightarrow>
          if r = [] \<or> length r < 3 then (Inr None, jm)
          else if (case current_job jm of None \<Rightarrow> False | Some c \<Rightarrow> header_hash c = r ! 0)
          then (Inr None, jm)
          else
            (let job = make_job (counter jm + 1) r now;
                 jm1 = store_job job jm
             in (case prune jm1 of
                   Inl e \<Rightarrow> (Inl e, jm1)
                 | Inr jm2 \<Rightarrow> (Inr (Some job), jm2))))"

text \<open>
  \<^verbatim>\<open>JobManager.find_job\<close>, with both keyword arguments as the caller passes them
  (\<open>JNull\<close> for an argument left out). Membership of an unhashable value (a non-empty
  list or dict) in a dict raises TypeError; \<^verbatim>\<open>.lower()\<close> exists on strings only.
\<close>

definition find_job :: "JobManager \<Rightarrow> json \<Rightarrow> json \<Rightarrow> exn + Job option" where
  "find_job jm jid hh =
     (let by_hh =
            (if truthy hh
             then (case hh of
                     JStr h \<Rightarrow> Inr (map_of (by_header jm) (lower h))
                   | _ \<Rightarrow> Inl AttributeError)
             else Inr None)
      in if truthy jid
         then (case jid of
                 JStr k \<Rightarrow> (case map_of (jobs jm) k of Some j \<Rightarrow> Inr (Some j) | None \<Rightarrow> by_hh)
               | JArr _ \<Rightarrow> Inl TypeError
               | JObj _ \<Rightarrow> Inl TypeError
               | _ \<Rightarrow> by_hh)
         else by_hh)"


text \<open>
  The poll loop calls \<^verbatim>\<open>poll_work\<close> again and again on the same manager, whatever the
  previous call returned or raised; each element of the list is what one call saw: the
  answer of \<^verbatim>\<open>get_work\<close> and the clock.
\<close>

fun run_polls :: "(string list option \<times> rat) list \<Rightarrow> JobManager \<Rightarrow> JobManager" where
  "run_polls [] jm = jm"
| "run_polls (p # ps) jm = run_polls ps (snd (poll_work (fst p) (snd p) jm))"

text \<open>
  The shape of the \<^verbatim>\<open>jobs\<close> dict in every state the poll loop reaches: its keys, in
  insertion order, are the numerals of the last (at most 20) counter values.
\<close>

definition manager_inv :: "JobManager \<Rightarrow> bool" where
  "manager_inv jm \<longleftrightarrow>
     map fst (jobs jm) = map hex [Suc (counter jm - 20) ..< Suc (counter jm)]"


section \<open>Forwarding a solution to the node\<close>

text \<open>
  What \<^verbatim>\<open>self.rpc.submit_work\<close> does with a solution: it returns the \<^verbatim>\<open>result\<close> member of
  the node's answer, any JSON value, or raises an exception whose text is kept. The node
  is a function of the three strings sent to it.
\<close>

datatype rpc_reply = Returned json | Raised string

type_synonym node = "string \<Rightarrow> string \<Rightarrow> string \<Rightarrow> rpc_reply"

text \<open>
  \<^verbatim>\<open>if not x.startswith("0x"): x = "0x" + x\<close>. Only a string has \<^verbatim>\<open>startswith\<close>; on \<^verbatim>\<open>None\<close>
  and on every other JSON value the attribute lookup raises AttributeError.
\<close>

definition normalize :: "json \<Rightarrow> exn + string" where
  "normalize v =
     (case v of
        JStr x \<Rightarrow> Inr (if startswith x ''0x'' then x else ''0x'' @ x)
      | _ \<Rightarrow> Inl AttributeError)"

text \<open>
  \<^verbatim>\<open>JobManager.submit_solution\<close>. The three normalisations stand before the \<^verbatim>\<open>try\<close>, so
  their exception leaves the function; an exception of the call to the node is caught
  and turned into the string \<^verbatim>\<open>error: ...\<close>.
\<close>

definition submit_solution :: "node \<Rightarrow> json \<Rightarrow> json \<Rightarrow> json \<Rightarrow> exn + string" where
  "submit_solution rpc nonce hh md =
     (case normalize nonce of
        Inl x \<Rightarrow> Inl x
      | Inr n \<Rightarrow>
          (case normalize hh of
             Inl x \<Rightarrow> Inl x
           | Inr h \<Rightarrow>
               (case normalize md of
                  Inl x \<Rightarrow> Inl x
                | Inr m \<Rightarrow>
                    (case rpc n h m of
                       Returned ok \<Rightarrow> Inr (if truthy ok then ''accepted'' else ''rejected'')
                     | Raised e \<Rightarrow> Inr (''error: '' @ e)))))"

section \<open>Miner session\<close>

text \<open>
  The mutable fields of a \<^verbatim>\<open>MinerSession\<close>. \<open>sent\<close> is the sequence of JSON lines written
  to the socket so far. \<open>writer\<close> holds the outcomes of the coming write attempts, the
  next one first: \<open>False\<close> is a write that raises \<^verbatim>\<open>OSError\<close>; when the list is used up
  every write succeeds.
\<close>

record Session =
  authorized :: bool
  worker_name :: json
  protocol :: string
  closed :: bool
  shares_accepted :: nat
  shares_rejected :: nat
  sent :: "json list"
  writer :: "bool list"

definition new_session :: "bool list \<Rightarrow> Session" where
  "new_session w =
     \<lparr>authorized = False, worker_name = JStr ''unknown'', protocol = ''unknown'',
      closed = False, shares_accepted = 0, shares_rejected = 0, sent = [], writer = w\<rparr>"

text \<open>What a handler sees of the rest of the proxy: the job manager and the node.\<close>

record env =
  manager :: JobManager
  upstream :: node

subsection \<open>Wire protocol\<close>

definition send_json :: "json \<Rightarrow> Session \<Rightarrow> Session" where
  "send_json obj s =
     (if closed s then s
      else (case writer s of
              [] \<Rightarrow> s\<lparr>sent := sent s @ [obj]\<rparr>
            | ok # w \<Rightarrow>
                if ok then s\<lparr>sent := sent s @ [obj], writer := w\<rparr>
                else s\<lparr>closed := True, writer := w\<rparr>))"

definition result_obj :: "json \<Rightarrow> json \<Rightarrow> json" where
  "result_obj msg_id r = JObj [(''id'', msg_id), (''result'', r), (''error'', JNull)]"

definition error_obj :: "json \<Rightarrow> int \<Rightarrow> string \<Rightarrow> json" where
  "error_obj msg_id code message =
     JObj [(''id'', msg_id), (''result'', JNull),
           (''error'', JArr [JNum (of_int code), JStr message, JNull])]"

definition notification_obj :: "string \<Rightarrow> json \<Rightarrow> json" where
  "notification_obj method params =
     JObj [(''id'', JNull), (''method'', JStr method), (''params'', params)]"

definition send_result :: "json \<Rightarrow> json \<Rightarrow> Session \<Rightarrow> Session" where
  "send_result msg_id r s = send_json (result_obj msg_id r) s"

definition send_error :: "json \<Rightarrow> int \<Rightarrow> string \<Rightarrow> Session \<Rightarrow> Session" where
  "send_error msg_id code message s = send_json (error_obj msg_id code message) s"

definition send_notification :: "string \<Rightarrow> json \<Rightarrow> Session \<Rightarrow> Session" where
  "send_notification method params s = send_json (notification_obj method params) s"

definition close :: "Session \<Rightarrow> Session" where
  "close s = (if closed s then s else s\<lparr>closed := True\<rparr>)"

subsection \<open>Pushing work\<close>

text \<open>
  \<^verbatim>\<open>send_stratum_job\<close>. \<^verbatim>\<open>int(job.boundary, 16) if job.boundary else 1\<close> raises ValueError
  on a non-empty string that is no numeral; the quotient is Python's true division.
  A handler returns the exception that left it, if any, and the session as it is then.
\<close>

definition boundary_int :: "Job \<Rightarrow> int option" where
  "boundary_int job = (if boundary job \<noteq> [] then int_hex (boundary job) else Some 1)"

definition difficulty :: "int \<Rightarrow> rat" where
  "difficulty b = (if b > 0 then (2 ^ 256 - 1) / of_int b else 1)"

definition send_stratum_job :: "Job \<Rightarrow> bool \<Rightarrow> Session \<Rightarrow> exn option \<times> Session" where
  "send_stratum_job job clean s =
     (case boundary_int job of
        None \<Rightarrow> (Some ValueError, s)
      | Some b \<Rightarrow>
          (None,
           send_notification ''mining.notify''
             (JArr [JStr (job_id job), JStr (seed_hash job), JStr (header_hash job), JBool clean])
             (send_notification ''mining.set_difficulty'' (JArr [JNum (difficulty b)]) s)))"

definition send_ethproxy_job :: "Job \<Rightarrow> Session \<Rightarrow> exn option \<times> Session" where
  "send_ethproxy_job job s =
     (None,
      send_notification ''mining.notify''
        (JArr [JStr (header_hash job), JStr (seed_hash job), JStr (boundary job)]) s)"

definition send_new_work :: "Job \<Rightarrow> bool \<Rightarrow> Session \<Rightarrow> exn option \<times> Session" where
  "send_new_work job clean s =
     (if protocol s = ''ethproxy'' then send_ethproxy_job job s
      else send_stratum_job job clean s)"

text \<open>\<^verbatim>\<open>if self.job_manager.current_job: await self.send_stratum_job(..., clean=True)\<close>\<close>

definition push_current :: "env \<Rightarrow> Session \<Rightarrow> exn option \<times> Session" where
  "push_current e s =
     (case current_job (manager e) of
        None \<Rightarrow> (None, s)
      | Some job \<Rightarrow> send_stratum_job job True s)"


subsection \<open>Handlers\<close>

text \<open>\<^verbatim>\<open>params[0] if params else "unknown"\<close>\<close>

definition first_or_unknown :: "json \<Rightarrow> exn + json" where
  "first_or_unknown params =
     (if truthy params then py_index params 0 else Inr (JStr ''unknown''))"

text \<open>\<^verbatim>\<open>params[0], params[1], params[2]\<close>, read in this order.\<close>

definition index3 :: "json \<Rightarrow> exn + json \<times> json \<times> json" where
  "index3 params =
     (case py_index params 0 of
        Inl x \<Rightarrow> Inl x
      | Inr a \<Rightarrow>
          (case py_index params 1 of
             Inl x \<Rightarrow> Inl x
           | Inr b \<Rightarrow>
               (case py_index params 2 of
                  Inl x \<Rightarrow> Inl x
                | Inr c \<Rightarrow> Inr (a, b, c))))"

text \<open>
  A slice \<^verbatim>\<open>x[:10]\<close> is defined on strings and lists; on the other JSON values it raises
  (TypeError, on a dict a KeyError in recent versions of Python; the model says TypeError).
\<close>

fun sliceable :: "json \<Rightarrow> bool" where
  "sliceable (JStr s) = True"
| "sliceable (JArr xs) = True"
| "sliceable _ = False"

definition ethproxy_login :: "json \<Rightarrow> json \<Rightarrow> Session \<Rightarrow> exn option \<times> Session" where
  "ethproxy_login msg_id params s =
     (let s1 = s\<lparr>protocol := ''ethproxy''\<rparr> in
      case first_or_unknown params of
        Inl x \<Rightarrow> (Some x, s1)
      | Inr w \<Rightarrow>
          (None, send_result msg_id (JBool True) (s1\<lparr>worker_name := w, authorized := True\<rparr>)))"

definition ethproxy_getwork :: "env \<Rightarrow> json \<Rightarrow> Session \<Rightarrow> exn option \<times> Session" where
  "ethproxy_getwork e msg_id s =
     (case current_job (manager e) of
        Some job \<Rightarrow>
          (None, send_result msg_id
                   (JArr [JStr (header_hash job), JStr (seed_hash job), JStr (boundary job)]) s)
      | None \<Rightarrow> (None, send_error msg_id (- 1) ''No work available yet'' s))"

definition ethproxy_submitwork ::
  "env \<Rightarrow> json \<Rightarrow> json \<Rightarrow> Session \<Rightarrow> exn option \<times> Session" where
  "ethproxy_submitwork e msg_id params s =
     (case py_len params of
        Inl x \<Rightarrow> (Some x, s)
      | Inr n \<Rightarrow>
          if n < 3 then (None, send_error msg_id (- 1) ''Need [nonce, headerHash, mixDigest]'' s)
          else
            (case index3 params of
               Inl x \<Rightarrow> (Some x, s)
             | Inr (nonce, hh, md) \<Rightarrow>
                 if \<not> sliceable hh then (Some TypeError, s)
                 else
                   (case submit_solution (upstream e) nonce hh md of
                      Inl x \<Rightarrow> (Some x, s)
                    | Inr result \<Rightarrow>
                        if result = ''accepted''
                        then (None, send_result msg_id (JBool True)
                                      (s\<lparr>shares_accepted := shares_accepted s + 1\<rparr>))
                        else (None, send_error msg_id (- 1) (''Rejected: '' @ result)
                                      (s\<lparr>shares_rejected := shares_rejected s + 1\<rparr>)))))"

text \<open>
  \<^verbatim>\<open>_ethproxy_hashrate\<close>: only \<^verbatim>\<open>len(params)\<close> stands outside the \<^verbatim>\<open>try\<close>; the call to the
  node changes nothing in the session.
\<close>

definition ethproxy_hashrate :: "json \<Rightarrow> json \<Rightarrow> Session \<Rightarrow> exn option \<times> Session" where
  "ethproxy_hashrate msg_id params s =
     (case py_len params of
        Inl x \<Rightarrow> (Some x, s)
      | Inr n \<Rightarrow> (None, send_result msg_id (JBool True) s))"

definition stratum_subscribe ::
  "env \<Rightarrow> json \<Rightarrow> json \<Rightarrow> Session \<Rightarrow> exn option \<times> Session" where
  "stratum_subscribe e msg_id params s =
     (let s1 = s\<lparr>protocol := ''stratum''\<rparr> in
      case first_or_unknown params of
        Inl x \<Rightarrow> (Some x, s1)
      | Inr agent \<Rightarrow>
          push_current e
            (send_result msg_id
               (JArr [JArr [JArr [JStr ''mining.notify'', JStr ''xhash_proxy'']],
                      JStr [], JStr ''0'']) s1))"

definition stratum_authorize ::
  "env \<Rightarrow> json \<Rightarrow> json \<Rightarrow> Session \<Rightarrow> exn option \<times> Session" where
  "stratum_authorize e msg_id params s =
     (case first_or_unknown params of
        Inl x \<Rightarrow> (Some x, s)
      | Inr w \<Rightarrow>
          push_current e
            (send_result msg_id (JBool True) (s\<lparr>worker_name := w, authorized := True\<rparr>)))"

text \<open>\<^verbatim>\<open>job.header_hash if job else None\<close>\<close>

definition job_header :: "Job option \<Rightarrow> json" where
  "job_header job = (case job of Some j \<Rightarrow> JStr (header_hash j) | None \<Rightarrow> JNull)"

text \<open>
  The reconstruction of \<^verbatim>\<open>header_hash\<close> and \<^verbatim>\<open>mix_digest\<close> from \<open>n = len(params)\<close>, the
  params and the job found.
\<close>

definition reconstruct :: "nat \<Rightarrow> json \<Rightarrow> Job option \<Rightarrow> exn + json \<times> json" where
  "reconstruct n params job =
     (if n \<ge> 5
      then (case py_index params 3 of
              Inl x \<Rightarrow> Inl x
            | Inr hh \<Rightarrow>
                (case py_index params 4 of
                   Inl x \<Rightarrow> Inl x
                 | Inr md \<Rightarrow> Inr (hh, md)))
      else if n \<ge> 4
      then (case py_index params 3 of
              Inl x \<Rightarrow> Inl x
            | Inr md \<Rightarrow> Inr (job_header job, md))
      else Inr (job_header job, JNull))"

definition stratum_submit ::
  "env \<Rightarrow> json \<Rightarrow> json \<Rightarrow> Session \<Rightarrow> exn option \<times> Session" where
  "stratum_submit e msg_id params s =
     (if \<not> authorized s then (None, send_error msg_id 24 ''Not authorized'' s)
      else
        (case py_len params of
           Inl x \<Rightarrow> (Some x, s)
         | Inr n \<Rightarrow>
             if n < 3 then (None, send_error msg_id 21 ''Not enough parameters'' s)
             else
               (case index3 params of
                  Inl x \<Rightarrow> (Some x, s)
                | Inr (worker, jid, nonce) \<Rightarrow>
                    (case find_job (manager e) jid JNull of
                       Inl x \<Rightarrow> (Some x, s)
                     | Inr job \<Rightarrow>
                         (case reconstruct n params job of
                            Inl x \<Rightarrow> (Some x, s)
                          | Inr (hh, md) \<Rightarrow>
                              if (\<not> truthy hh \<or> \<not> truthy md) \<and> job = None
                              then (None, send_error msg_id 21
                                      ''Job not found, can't reconstruct submission'' s)
                              else
                                (case submit_solution (upstream e) nonce hh md of
                                   Inl x \<Rightarrow> (Some x, s)
                                 | Inr result \<Rightarrow>
                                     if result = ''accepted''
                                     then (None, send_result msg_id (JBool True)
                                             (s\<lparr>shares_accepted := shares_accepted s + 1\<rparr>))
                                     else if result = ''job-not-found''
                                     then (None, send_error msg_id 21 ''Job not found (stale)''
                                             (s\<lparr>shares_rejected := shares_rejected s + 1\<rparr>))
                                     else (None, send_error msg_id 20 (''Rejected: '' @ result)
                                             (s\<lparr>shares_rejected := shares_rejected s + 1\<rparr>))))))))"

subsection \<open>Dispatch and the serving loop\<close>

text \<open>\<^verbatim>\<open>msg.get(key, default)\<close>: an attribute of dicts only.\<close>

definition msg_get :: "json \<Rightarrow> string \<Rightarrow> json \<Rightarrow> exn + json" where
  "msg_get msg key dflt =
     (case msg of
        JObj kvs \<Rightarrow> Inr (case map_of kvs key of Some v \<Rightarrow> v | None \<Rightarrow> dflt)
      | _ \<Rightarrow> Inl AttributeError)"

definition dispatch :: "env \<Rightarrow> json \<Rightarrow> Session \<Rightarrow> exn option \<times> Session" where
  "dispatch e msg s =
     (case msg_get msg ''method'' (JStr []) of
        Inl x \<Rightarrow> (Some x, s)
      | Inr method \<Rightarrow>
          (case msg_get msg ''id'' JNull of
             Inl x \<Rightarrow> (Some x, s)
           | Inr msg_id \<Rightarrow>
               (case msg_get msg ''params'' (JArr []) of
                  Inl x \<Rightarrow> (Some x, s)
                | Inr params \<Rightarrow>
                    if method = JStr ''eth_submitLogin'' then ethproxy_login msg_id params s
                    else if method = JStr ''eth_getWork'' then ethproxy_getwork e msg_id s
                    else if method = JStr ''eth_submitWork''
                    then ethproxy_submitwork e msg_id params s
                    else if method = JStr ''eth_submitHashrate''
                    then ethproxy_hashrate msg_id params s
                    else if method = JStr ''mining.subscribe''
                    then stratum_subscribe e msg_id params s
                    else if method = JStr ''mining.authorize''
                    then stratum_authorize e msg_id params s
                    else if method = JStr ''mining.submit'' then stratum_submit e msg_id params s
                    else if method = JStr ''mining.extranonce.subscribe''
                    then (None, send_result msg_id (JBool True) s)
                    else (None, send_result msg_id (JBool True) s))))"

text \<open>
  What happens to a session, in order: a line arrives and is decoded to \<open>msg\<close> while the
  proxy is in the state \<open>e\<close>, or the poll loop broadcasts a new job. Blank lines and lines
  that are no JSON are skipped by \<^verbatim>\<open>run\<close> and do not appear.
\<close>

datatype event = Recv env json | Push Job

text \<open>
  \<^verbatim>\<open>_broadcast\<close> on one session: nothing for a closed session, and an exception of
  \<^verbatim>\<open>send_new_work\<close> is swallowed.
\<close>

definition broadcast :: "Job \<Rightarrow> Session \<Rightarrow> Session" where
  "broadcast job s = (if closed s then s else snd (send_new_work job True s))"

text \<open>
  The loop of \<^verbatim>\<open>run\<close> over the events of a connection. The loop ends when the session is
  closed; an exception out of \<^verbatim>\<open>_dispatch\<close> ends it too, and the \<^verbatim>\<open>finally\<close> clause closes
  the session. \<open>serve\<close> gives the session after the events, \<open>run\<close> the session when the
  connection has ended after them.
\<close>

fun serve :: "event list \<Rightarrow> Session \<Rightarrow> Session" where
  "serve [] s = s"
| "serve (Push job # evs) s = serve evs (broadcast job s)"
| "serve (Recv e msg # evs) s =
     (if closed s then s
      else (case dispatch e msg s of
              (Some x, s') \<Rightarrow> close s'
            | (None, s') \<Rightarrow> serve evs s'))"

definition run :: "event list \<Rightarrow> Session \<Rightarrow> Session" where
  "run evs s = close (serve evs s)"

text \<open>A request as a miner sends it.\<close>

definition request :: "json \<Rightarrow> string \<Rightarrow> json list \<Rightarrow> json" where
  "request msg_id method params =
     JObj [(''id'', msg_id), (''method'', JStr method), (''params'', JArr params)]"


section \<open>Scenarios\<close>

text \<open>
  Twenty-one polls: twenty different header hashes, then the first one again while the
  job made from it is still the oldest entry of the cache.
\<close>

definition repeat_polls :: "(string list option \<times> rat) list" where
  "repeat_polls =
     map (\<lambda>i. (Some [''0xa'' @ hexdigits i, ''0x5eed'', ''0x00ff''], 0)) [1..<21]
     @ [(Some [''0xa1'', ''0x5eed'', ''0x00ff''], 0)]"

text \<open>A manager that has seen one work triple, and a node that accepts every solution.\<close>

definition one_job_manager :: JobManager where
  "one_job_manager = snd (poll_work (Some [''0xAA'', ''0xBB'', ''0x00ff'']) 0 new_manager)"

definition accepting_env :: env where
  "accepting_env = \<lparr>manager = one_job_manager, upstream = (\<lambda>n h m. Returned (JBool True))\<rparr>"

text \<open>Twenty-five polls that bring twenty-five different header hashes.\<close>

definition polls25 :: "(string list \<times> rat) list" where
  "polls25 = map (\<lambda>i. ([''0xb'' @ hexdigits i, ''0x5eed'', ''0x00ff''], 0)) [0..<25]"

section \<open>Observing a session\<close>

text \<open>The method of a request; \<open>JNull\<close> when the message is no JSON object.\<close>

definition method_of :: "json \<Rightarrow> json" where
  "method_of msg = (case msg_get msg ''method'' (JStr []) of Inr m \<Rightarrow> m | Inl x \<Rightarrow> JNull)"

definition is_submit :: "json \<Rightarrow> bool" where
  "is_submit msg \<longleftrightarrow>
     method_of msg = JStr ''eth_submitWork'' \<or> method_of msg = JStr ''mining.submit''"

text \<open>
  The lines a session writes while it handles the submit requests among the events, in
  order: for each \<open>Recv\<close> of a submit request, what \<open>dispatch\<close> appended to \<open>sent\<close>.
\<close>

fun submit_replies :: "event list \<Rightarrow> Session \<Rightarrow> json list" where
  "submit_replies [] s = []"
| "submit_replies (Push job # evs) s = submit_replies evs (broadcast job s)"
| "submit_replies (Recv e msg # evs) s =
     (if closed s then []
      else (if is_submit msg then drop (length (sent s)) (sent (snd (dispatch e msg s))) else [])
           @ (case fst (dispatch e msg s) of
                Some x \<Rightarrow> []
              | None \<Rightarrow> submit_replies evs (snd (dispatch e msg s))))"

text \<open>The \<^verbatim>\<open>error\<close> member of a reply.\<close>

definition error_of :: "json \<Rightarrow> json" where
  "error_of r =
     (case r of
        JObj kvs \<Rightarrow> (case map_of kvs ''error'' of Some v \<Rightarrow> v | None \<Rightarrow> JNull)
      | _ \<Rightarrow> JNull)"

text \<open>
  The replies by which a handler turns a submit request down before it looks for a job:
  \<^verbatim>\<open>Not authorized\<close>, \<^verbatim>\<open>Not enough parameters\<close>, \<^verbatim>\<open>Need [nonce, headerHash, mixDigest]\<close>.
\<close>

definition precheck_reply :: "json \<Rightarrow> bool" where
  "precheck_reply r \<longleftrightarrow>
     error_of r = JArr [JNum 24, JStr ''Not authorized'', JNull]
     \<or> error_of r = JArr [JNum 21, JStr ''Not enough parameters'', JNull]
     \<or> error_of r = JArr [JNum (- 1), JStr ''Need [nonce, headerHash, mixDigest]'', JNull]"

definition unknown_job_reply :: "json \<Rightarrow> bool" where
  "unknown_job_reply r \<longleftrightarrow>
     error_of r = JArr [JNum 21, JStr ''Job not found, can't reconstruct submission'', JNull]"

definition shares :: "Session \<Rightarrow> nat" where
  "shares s = shares_accepted s + shares_rejected s"


definition authorize_msg :: json where
  "authorize_msg = request (JNum 2) ''mining.authorize'' [JStr ''worker1'', JStr ''x'']"


text \<open>A submit with three params for a job id that is not in the cache.\<close>

definition stale_submit :: json where
  "stale_submit = request (JNum 4) ''mining.submit'' [JStr ''worker1'', JStr ''0x9'', JStr ''0x1234'']"

text \<open>A submit with three params for the cached job \<^verbatim>\<open>0x1\<close>.\<close>

definition short_submit :: json where
  "short_submit = request (JNum 5) ''mining.submit'' [JStr ''worker1'', JStr ''0x1'', JStr ''0x1234'']"

text \<open>Jobs with a usual, a zero, an empty and a malformed boundary.\<close>

definition usual_job :: Job where
  "usual_job = make_job 1 [''0xAA'', ''0xBB'', ''0x00ff''] 0"




text \<open>A submit with five params for the cached job \<^verbatim>\<open>0x1\<close>.\<close>

definition full_submit :: json where
  "full_submit =
     request (JNum 6) ''mining.submit''
       [JStr ''worker1'', JStr ''0x1'', JStr ''0x1234'', JStr ''0xAA'', JStr ''0xCC'']"

section \<open>Properties\<close>

lemma hexdigit_table:
  "\<forall>d \<in> set [0..<16]. hexval (hexdigit d) = Some d \<and> \<not> is_space (hexdigit d)"
  by code_simp

lemma hexval_hexdigit: "d < 16 \<Longrightarrow> hexval (hexdigit d) = Some d"
  using hexdigit_table by simp

lemma hexdigit_not_us: "d < 16 \<Longrightarrow> hexdigit d \<noteq> CHR ''_''"
  by (auto simp: hexval_def dest!: hexval_hexdigit)

lemma hexdigit_not_space: "d < 16 \<Longrightarrow> \<not> is_space (hexdigit d)"
  using hexdigit_table by simp

lemma scan_digits_snoc:
  "d < 16 \<Longrightarrow> scan_digits us acc k cs = Some (v, n, []) \<Longrightarrow>
   scan_digits us acc k (cs @ [hexdigit d]) = Some (16 * v + d, Suc n, [])"
  by (induction us acc k cs rule: scan_digits.induct)
     (auto simp: hexval_hexdigit hexdigit_not_us split: if_splits option.splits)

lemma scan_digits_hexdigits:
  "scan_digits False 0 0 (hexdigits n) = Some (n, length (hexdigits n), [])"
proof (induction n rule: hexdigits.induct)
  case (1 n)
  show ?case
  proof (cases "n < 16")
    case True
    then show ?thesis
      by (subst hexdigits.simps, subst (2) hexdigits.simps)
         (simp add: hexval_hexdigit hexdigit_not_us)
  next
    case False
    from 1 [OF False]
    have "scan_digits False 0 0 (hexdigits (n div 16) @ [hexdigit (n mod 16)]) =
          Some (16 * (n div 16) + n mod 16, Suc (length (hexdigits (n div 16))), [])"
      by (intro scan_digits_snoc) simp_all
    with False show ?thesis
      by (subst hexdigits.simps, subst (2) hexdigits.simps) simp
  qed
qed

lemma hexdigits_nonempty: "hexdigits n \<noteq> []"
  by (subst hexdigits.simps) simp

lemma hd_hexdigits: "\<exists>d<16. hd (hexdigits n) = hexdigit d"
proof (induction n rule: hexdigits.induct)
  case (1 n)
  show ?case
  proof (cases "n < 16")
    case True
    then show ?thesis by (subst hexdigits.simps) auto
  next
    case False
    with 1 hexdigits_nonempty [of "n div 16"] show ?thesis
      by (subst hexdigits.simps) simp
  qed
qed

lemma int_hex_hex: "int_hex (hex n) = Some (int n)"
proof -
  obtain d where d: "d < 16" "hd (hexdigits n) = hexdigit d"
    using hd_hexdigits by blast
  obtain c cs where cs: "hexdigits n = c # cs"
    using hexdigits_nonempty [of n] by (cases "hexdigits n") auto
  with d have c: "c \<noteq> CHR ''_''" using hexdigit_not_us by auto
  have sp: "\<not> is_space CHR ''0''" by (simp add: is_space_def)
  have "strip_prefix (hex n) = hexdigits n"
    using c cs by (simp add: strip_prefix_def hex_def startswith_def)
  moreover have "strip_sign (dropWhile is_space (hex n)) = (1, hex n)"
    using sp by (simp add: hex_def strip_sign_def)
  moreover have "\<not> startswith (hexdigits n) ''_''"
    using c cs by (simp add: startswith_def)
  ultimately show ?thesis
    using hexdigits_nonempty [of n]
    by (simp add: int_hex_def scan_digits_hexdigits)
qed

lemma hex_inj: "hex m = hex n \<Longrightarrow> m = n"
proof -
  assume "hex m = hex n"
  then have "int_hex (hex m) = int_hex (hex n)" by simp
  then show ?thesis by (simp add: int_hex_hex)
qed

lemma update_fresh_key:
  "k \<notin> fst ` set al \<Longrightarrow> AList.update k v al = al @ [(k, v)]"
  by (induction al) auto

lemma removeAll_hex_first:
  "a < b \<Longrightarrow> removeAll (hex a) (map hex [a..<b]) = map hex [Suc a..<b]"
proof -
  assume ab: "a < b"
  have "hex a \<notin> set (map hex [Suc a..<b])"
    by (auto dest: hex_inj)
  then have "removeAll (hex a) (map hex [Suc a..<b]) = map hex [Suc a..<b]"
    by (rule removeAll_id)
  with ab show ?thesis by (simp add: upt_conv_Cons)
qed

lemma sort_hex_keys:
  "sort_key (\<lambda>x. the (int_hex x)) (map hex [a..<b]) = map hex [a..<b]"
proof (rule sort_key_id_if_sorted)
  have "map (\<lambda>x. the (int_hex x)) (map hex [a..<b]) = map int [a..<b]"
    by (simp add: int_hex_hex)
  moreover have "sorted (map int [a..<b])"
    by (simp add: sorted_map sorted_wrt_iff_nth_less)
  ultimately show "sorted (map (\<lambda>x. the (int_hex x)) (map hex [a..<b]))"
    by (simp only:)
qed

lemma old_ids_inv:
  assumes "map fst js = map hex [a..<b]" "b - a = 21"
  shows "old_ids js = [hex a]"
proof -
  from assms have "a < b" by arith
  then have cons: "[a..<b] = a # [Suc a..<b]" by (rule upt_conv_Cons)
  have ks: "sort_key (\<lambda>x. the (int_hex x)) (map fst js) = map hex [a..<b]"
    by (simp only: assms(1) sort_hex_keys)
  have len: "length (map hex [a..<b]) - 20 = Suc 0"
    using assms(2) by simp
  have "take (Suc 0) (map hex [a..<b]) = [hex a]"
    by (subst cons) simp
  with ks len show ?thesis
    by (simp only: old_ids_def Let_def)
qed

lemma keys_store_job:
  assumes "manager_inv jm"
  shows "map fst (jobs (store_job (make_job (Suc (counter jm)) r now) jm)) =
         map hex [Suc (counter jm - 20) ..< Suc (Suc (counter jm))]"
proof -
  have "hex (Suc (counter jm)) \<notin> fst ` set (jobs jm)"
  proof
    assume "hex (Suc (counter jm)) \<in> fst ` set (jobs jm)"
    then have "hex (Suc (counter jm)) \<in> set (map fst (jobs jm))" by simp
    with assms show False
      by (auto simp: manager_inv_def dest!: hex_inj)
  qed
  then show ?thesis
    using assms by (simp add: store_job_def make_job_def update_fresh_key manager_inv_def)
qed

lemma poll_work_unfold:
  "poll_work (Some r) now jm =
     (if length r < 3 then (Inr None, jm)
      else if (case current_job jm of None \<Rightarrow> False | Some c \<Rightarrow> header_hash c = r ! 0)
      then (Inr None, jm)
      else (case prune (store_job (make_job (Suc (counter jm)) r now) jm) of
              Inl e \<Rightarrow> (Inl e, store_job (make_job (Suc (counter jm)) r now) jm)
            | Inr jm2 \<Rightarrow> (Inr (Some (make_job (Suc (counter jm)) r now)), jm2)))"
  by (auto simp: poll_work_def Let_def)

lemma counter_store_job [simp]: "counter (store_job job jm) = Suc (counter jm)"
  by (simp add: store_job_def)

lemma current_store_job [simp]: "current_job (store_job job jm) = Some job"
  by (simp add: store_job_def)

lemma prune_inv:
  fixes r :: "string list" and now :: rat
  assumes inv: "manager_inv jm"
  defines "jm1 \<equiv> store_job (make_job (Suc (counter jm)) r now) jm"
  shows "prune jm1 =
         Inr (if 20 \<le> counter jm then evict (hex (counter jm - 19)) jm1 else jm1)"
proof -
  have keys: "map fst (jobs jm1) = map hex [Suc (counter jm - 20) ..< Suc (Suc (counter jm))]"
    unfolding jm1_def using inv by (rule keys_store_job)
  have "length (jobs jm1) = length (map fst (jobs jm1))" by simp
  also have "\<dots> = Suc (Suc (counter jm)) - Suc (counter jm - 20)"
    by (simp only: keys length_map length_upt)
  finally have len: "length (jobs jm1) = Suc (Suc (counter jm)) - Suc (counter jm - 20)" .
  show ?thesis
  proof (cases "20 \<le> counter jm")
    case True
    then have big: "length (jobs jm1) > 20" using len by arith
    have parse: "list_all (\<lambda>k. int_hex k \<noteq> None) (map fst (jobs jm1))"
      by (simp only: keys) (simp add: list_all_iff int_hex_hex)
    from True have "Suc (Suc (counter jm)) - Suc (counter jm - 20) = 21" by arith
    with keys have "old_ids (jobs jm1) = [hex (Suc (counter jm - 20))]"
      by (rule old_ids_inv)
    moreover from True have "Suc (counter jm - 20) = counter jm - 19" by arith
    ultimately have "old_ids (jobs jm1) = [hex (counter jm - 19)]" by simp
    with big parse True show ?thesis by (simp add: prune_def)
  next
    case False
    then have "\<not> length (jobs jm1) > 20" using len by arith
    with False show ?thesis by (simp add: prune_def)
  qed
qed

lemma poll_work_fresh:
  assumes "manager_inv jm" "3 \<le> length r"
    and "\<forall>c. current_job jm = Some c \<longrightarrow> header_hash c \<noteq> r ! 0"
  shows "poll_work (Some r) now jm =
         (Inr (Some (make_job (Suc (counter jm)) r now)),
          if 20 \<le> counter jm
          then evict (hex (counter jm - 19)) (store_job (make_job (Suc (counter jm)) r now) jm)
          else store_job (make_job (Suc (counter jm)) r now) jm)"
proof -
  from assms(3) have "\<not> (case current_job jm of None \<Rightarrow> False | Some c \<Rightarrow> header_hash c = r ! 0)"
    by (simp split: option.splits)
  with assms(2) show ?thesis
    by (simp add: poll_work_unfold prune_inv [OF assms(1)])
qed

lemma evict_first_key:
  assumes keys: "map fst (jobs jm) = map hex [a..<b]" and ab: "a < b"
  shows "map fst (jobs (evict (hex a) jm)) = map hex [Suc a..<b]"
    and "counter (evict (hex a) jm) = counter jm"
    and "current_job (evict (hex a) jm) = current_job jm"
proof -
  from ab have "hex a \<in> set (map fst (jobs jm))" by (simp add: keys)
  then have "hex a \<in> fst ` set (jobs jm)" by simp
  then obtain j where j: "map_of (jobs jm) (hex a) = Some j"
    by (metis domD dom_map_of_conv_image_fst)
  then have ev: "evict (hex a) jm =
      jm\<lparr>jobs := AList.delete (hex a) (jobs jm),
         by_header := AList.delete (lower (header_hash j)) (by_header jm)\<rparr>"
    by (simp add: evict_def)
  show "map fst (jobs (evict (hex a) jm)) = map hex [Suc a..<b]"
    by (simp add: ev delete_keys keys removeAll_hex_first [OF ab])
  show "counter (evict (hex a) jm) = counter jm" by (simp add: ev)
  show "current_job (evict (hex a) jm) = current_job jm" by (simp add: ev)
qed

lemma manager_inv_new: "manager_inv new_manager"
  by (simp add: manager_inv_def new_manager_def)

lemma poll_work_no_change:
  "fst (poll_work r now jm) = Inr None \<Longrightarrow> snd (poll_work r now jm) = jm"
  by (cases r) (auto simp: poll_work_def Let_def split: if_splits sum.splits option.splits)

lemma poll_work_inv:
  assumes inv: "manager_inv jm"
  shows "manager_inv (snd (poll_work r now jm))"
    and "\<exists>res. fst (poll_work r now jm) = Inr res"
    and "counter jm \<le> counter (snd (poll_work r now jm))"
proof -
  let ?job = "make_job (Suc (counter jm)) (the r) now"
  let ?jm1 = "store_job ?job jm"
  have keys1: "map fst (jobs ?jm1) = map hex [Suc (counter jm - 20) ..< Suc (Suc (counter jm))]"
    using inv by (rule keys_store_job)
  have A: "manager_inv (snd (poll_work r now jm)) \<and> (\<exists>res. fst (poll_work r now jm) = Inr res)
      \<and> counter jm \<le> counter (snd (poll_work r now jm))"
  proof (cases "\<exists>rr. r = Some rr \<and> 3 \<le> length rr \<and>
                 (\<forall>c. current_job jm = Some c \<longrightarrow> header_hash c \<noteq> rr ! 0)")
    case True
    then obtain rr where rr: "r = Some rr" "3 \<le> length rr"
      "\<forall>c. current_job jm = Some c \<longrightarrow> header_hash c \<noteq> rr ! 0" by blast
    note pw = poll_work_fresh [OF inv rr(2) rr(3), of now]
    show ?thesis
    proof (cases "20 \<le> counter jm")
      case big: True
      then have lt: "counter jm - 19 < Suc (Suc (counter jm))" by arith
      from big have eq: "Suc (counter jm - 20) = counter jm - 19" by arith
      from keys1 have k: "map fst (jobs ?jm1) = map hex [counter jm - 19 ..< Suc (Suc (counter jm))]"
        by (simp only: eq)
      from big have eq2: "Suc (Suc (counter jm) - 20) = Suc (counter jm - 19)" by arith
      show ?thesis
        using big evict_first_key [OF k lt] rr(1)
        by (simp add: pw manager_inv_def eq2)
    next
      case small: False
      then have "Suc (counter jm) - 20 = 0" "counter jm - 20 = 0" by arith+
      with small keys1 rr(1) show ?thesis
        by (simp add: pw manager_inv_def)
    qed
  next
    case False
    then have "poll_work r now jm = (Inr None, jm)"
      by (cases r) (auto simp: poll_work_unfold poll_work_def split: option.splits)
    with inv show ?thesis by simp
  qed
  from A show "manager_inv (snd (poll_work r now jm))" by blast
  from A show "\<exists>res. fst (poll_work r now jm) = Inr res" by blast
  from A show "counter jm \<le> counter (snd (poll_work r now jm))" by blast
qed

lemma run_polls_inv:
  "manager_inv jm \<Longrightarrow> manager_inv (run_polls ps jm)"
  by (induction ps arbitrary: jm) (simp_all add: poll_work_inv(1))

lemma run_polls_counter:
  "manager_inv jm \<Longrightarrow> counter jm \<le> counter (run_polls ps jm)"
proof (induction ps arbitrary: jm)
  case Nil
  then show ?case by simp
next
  case (Cons p ps)
  have "counter jm \<le> counter (snd (poll_work (fst p) (snd p) jm))"
    using Cons.prems by (rule poll_work_inv(3))
  also have "\<dots> \<le> counter (run_polls ps (snd (poll_work (fst p) (snd p) jm)))"
    by (rule Cons.IH) (rule poll_work_inv(1) [OF Cons.prems])
  finally show ?case by simp
qed

lemma run_polls_append:
  "run_polls (ps @ qs) jm = run_polls qs (run_polls ps jm)"
  by (induction ps arbitrary: jm) simp_all

lemma manager_inv_length:
  "manager_inv jm \<Longrightarrow> length (jobs jm) \<le> 20"
proof -
  assume inv: "manager_inv jm"
  have "length (jobs jm) = length (map fst (jobs jm))" by simp
  also have "\<dots> = Suc (counter jm) - Suc (counter jm - 20)"
    using inv by (simp only: manager_inv_def length_map length_upt)
  also have "\<dots> \<le> 20" by arith
  finally show ?thesis .
qed

lemma manager_inv_distinct:
  "manager_inv jm \<Longrightarrow> distinct (map fst (jobs jm))"
  by (simp add: manager_inv_def distinct_map inj_on_def) (blast dest: hex_inj)

lemma counter_evict [simp]: "counter (evict k jm) = counter jm"
  by (simp add: evict_def split: option.splits)

lemma current_evict [simp]: "current_job (evict k jm) = current_job jm"
  by (simp add: evict_def split: option.splits)

lemma distinct_hex_upt: "distinct (map hex [a..<b])"
  by (simp add: distinct_map inj_on_def) (blast dest: hex_inj)

lemma fresh_key:
  assumes "manager_inv jm"
  shows "hex (Suc (counter jm)) \<notin> fst ` set (jobs jm)"
proof
  assume "hex (Suc (counter jm)) \<in> fst ` set (jobs jm)"
  then have "hex (Suc (counter jm)) \<in> set (map fst (jobs jm))" by simp
  with assms show False
    by (auto simp: manager_inv_def dest!: hex_inj)
qed

lemma jobs_store_job:
  "manager_inv jm \<Longrightarrow>
   jobs (store_job (make_job (Suc (counter jm)) r now) jm) =
   jobs jm @ [(hex (Suc (counter jm)), make_job (Suc (counter jm)) r now)]"
  by (simp add: store_job_def make_job_def update_fresh_key fresh_key)

lemma evict_head:
  assumes "jobs jm = (k, v) # rest" "distinct (map fst (jobs jm))"
  shows "jobs (evict k jm) = rest"
proof -
  from assms have "k \<notin> fst ` set rest" by auto
  then have "AList.delete k rest = rest" by (rule delete_id)
  with assms(1) show ?thesis by (simp add: evict_def)
qed

lemma fresh_polls_state:
  fixes ws :: "(string list \<times> rat) list"
  assumes "\<forall>w \<in> set ws. 3 \<le> length (fst w)"
    and "distinct (map (\<lambda>w. fst w ! 0) ws)"
  defines "jm \<equiv> run_polls (map (\<lambda>w. (Some (fst w), snd w)) ws) new_manager"
  shows "jobs jm =
           drop (length ws - 20)
             (map (\<lambda>i. (hex (Suc i), make_job (Suc i) (fst (ws ! i)) (snd (ws ! i))))
                [0..<length ws])
         \<and> counter jm = length ws
         \<and> current_job jm =
             (if ws = [] then None
              else Some (make_job (length ws) (fst (last ws)) (snd (last ws))))"
  using assms(1,2) unfolding jm_def
proof (induction ws rule: rev_induct)
  case Nil
  show ?case by (simp add: new_manager_def)
next
  case (snoc w ws)
  let ?n = "length ws"
  let ?jm = "run_polls (map (\<lambda>w. (Some (fst w), snd w)) ws) new_manager"
  let ?f = "\<lambda>i. (hex (Suc i), make_job (Suc i) (fst (ws ! i)) (snd (ws ! i)))"
  let ?f' = "\<lambda>i. (hex (Suc i), make_job (Suc i) (fst ((ws @ [w]) ! i)) (snd ((ws @ [w]) ! i)))"
  let ?J = "map ?f [0..<?n]"
  let ?job = "make_job (Suc ?n) (fst w) (snd w)"
  let ?new = "(hex (Suc ?n), ?job)"
  from snoc.prems have p1: "\<forall>w \<in> set ws. 3 \<le> length (fst w)"
    and p2: "distinct (map (\<lambda>w. fst w ! 0) ws)" by simp_all
  note IH = snoc.IH [OF p1 p2]
  then have jobs: "jobs ?jm = drop (?n - 20) ?J"
    and cnt: "counter ?jm = ?n"
    and cur: "current_job ?jm =
               (if ws = [] then None else Some (make_job ?n (fst (last ws)) (snd (last ws))))"
    by blast+
  have inv: "manager_inv ?jm"
    by (rule run_polls_inv) (rule manager_inv_new)
  have len: "3 \<le> length (fst w)" using snoc.prems(1) by simp
  have fresh: "\<forall>c. current_job ?jm = Some c \<longrightarrow> header_hash c \<noteq> fst w ! 0"
  proof (intro allI impI)
    fix c assume c: "current_job ?jm = Some c"
    with cur have ne: "ws \<noteq> []" and "c = make_job ?n (fst (last ws)) (snd (last ws))"
      by (auto split: if_splits)
    then have "header_hash c = fst (last ws) ! 0" by (simp add: make_job_def)
    moreover have "last ws \<in> set ws" using ne by simp
    moreover have "fst w ! 0 \<notin> (\<lambda>w. fst w ! 0) ` set ws" using snoc.prems(2) by simp
    ultimately show "header_hash c \<noteq> fst w ! 0" by force
  qed
  have step: "run_polls (map (\<lambda>w. (Some (fst w), snd w)) (ws @ [w])) new_manager =
              snd (poll_work (Some (fst w)) (snd w) ?jm)"
    by (simp add: run_polls_append)
  note pw = poll_work_fresh [OF inv len fresh, of "snd w", unfolded cnt]
  have jobs1: "jobs (store_job ?job ?jm) = drop (?n - 20) ?J @ [?new]"
    using jobs_store_job [OF inv, of "fst w" "snd w"] by (simp add: cnt jobs)
  have J': "map ?f' [0..<length (ws @ [w])] = ?J @ [?new]"
    by (simp add: nth_append)
  have jobs_final: "jobs (snd (poll_work (Some (fst w)) (snd w) ?jm)) =
                    drop (Suc ?n - 20) (?J @ [?new])"
  proof (cases "20 \<le> ?n")
    case True
    then have lt: "?n - 20 < length ?J" by simp
    from True have "0 < ?n" by arith
    then have nth: "?J ! (?n - 20) = ?f (?n - 20)" by simp
    have "drop (?n - 20) ?J = ?J ! (?n - 20) # drop (Suc (?n - 20)) ?J"
      by (rule Cons_nth_drop_Suc [OF lt, symmetric])
    then have hd: "drop (?n - 20) ?J = ?f (?n - 20) # drop (Suc (?n - 20)) ?J"
      by (simp only: nth)
    from True have k: "Suc (?n - 20) = ?n - 19" by arith
    have keys1: "map fst (jobs (store_job ?job ?jm)) =
                 map hex [Suc (counter ?jm - 20) ..< Suc (Suc (counter ?jm))]"
      using keys_store_job [OF inv, of "fst w" "snd w"] by (simp add: cnt)
    have dist: "distinct (map fst (jobs (store_job ?job ?jm)))"
      by (simp only: keys1 distinct_hex_upt)
    have shape: "jobs (store_job ?job ?jm) =
                 (hex (?n - 19), make_job (?n - 19) (fst (ws ! (?n - 20))) (snd (ws ! (?n - 20))))
                 # (drop (Suc (?n - 20)) ?J @ [?new])"
      by (simp only: jobs1 hd k append_Cons)
    have "jobs (evict (hex (?n - 19)) (store_job ?job ?jm)) = drop (Suc (?n - 20)) ?J @ [?new]"
      using shape dist by (rule evict_head)
    moreover from True have "Suc ?n - 20 = Suc (?n - 20)" by arith
    ultimately show ?thesis using True by (simp add: pw)
  next
    case False
    then have "?n - 20 = 0" "Suc ?n - 20 = 0" by arith+
    with False show ?thesis by (simp add: pw jobs1)
  qed
  have "counter (snd (poll_work (Some (fst w)) (snd w) ?jm)) = Suc ?n"
    by (simp add: pw cnt)
  moreover have "current_job (snd (poll_work (Some (fst w)) (snd w) ?jm)) = Some ?job"
    by (simp add: pw)
  ultimately show ?case
    by (simp only: step jobs_final J') simp
qed




lemma hex_nonempty: "hex n \<noteq> []"
  by (simp add: hex_def)

lemma find_job_absent:
  assumes "manager_inv jm" "i < Suc (counter jm - 20) \<or> counter jm < i"
  shows "find_job jm (JStr (hex i)) JNull = Inr None"
proof -
  have "hex i \<notin> set (map fst (jobs jm))"
    using assms by (auto simp: manager_inv_def dest!: hex_inj)
  then have "map_of (jobs jm) (hex i) = None"
    by (simp add: map_of_eq_None_iff)
  then show ?thesis by (simp add: find_job_def hex_nonempty)
qed

text \<open>
  C10. A call of \<open>poll_work\<close> returns \<^verbatim>\<open>None\<close> exactly when \<^verbatim>\<open>get_work\<close> gave \<^verbatim>\<open>None\<close>, a list
  shorter than 3, or a header hash equal to the current job's; it then leaves the manager
  as it was: the two dicts, the current job and the counter keep their values.
\<close>

theorem poll_work_null_frame:
  "(fst (poll_work result now jm) = Inr None \<longleftrightarrow>
      (result = None \<or>
       (\<exists>r. result = Some r \<and>
          (length r < 3 \<or> (\<exists>c. current_job jm = Some c \<and> header_hash c = r ! 0)))))
   \<and> (fst (poll_work result now jm) = Inr None \<longrightarrow>
        snd (poll_work result now jm) = jm
        \<and> jobs (snd (poll_work result now jm)) = jobs jm
        \<and> by_header (snd (poll_work result now jm)) = by_header jm
        \<and> current_job (snd (poll_work result now jm)) = current_job jm
        \<and> counter (snd (poll_work result now jm)) = counter jm)"
proof -
  have A: "fst (poll_work result now jm) = Inr None \<longleftrightarrow>
      (result = None \<or>
       (\<exists>r. result = Some r \<and>
          (length r < 3 \<or> (\<exists>c. current_job jm = Some c \<and> header_hash c = r ! 0))))"
    by (cases result)
       (auto simp: poll_work_def Let_def split: if_splits sum.splits option.splits)
  have B: "fst (poll_work result now jm) = Inr None \<Longrightarrow> snd (poll_work result now jm) = jm"
    by (rule poll_work_no_change)
  from A B show ?thesis by auto
qed

theorem poll_work_null_frame_witness:
  "fst (poll_work (Some [''0xAA'', ''0xBB'', ''0x00ff'']) 1 one_job_manager) = Inr None
   \<and> snd (poll_work (Some [''0xAA'', ''0xBB'', ''0x00ff'']) 1 one_job_manager) = one_job_manager
   \<and> counter (snd (poll_work (Some [''0xAA'', ''0xBB'', ''0x00ff'']) 1 one_job_manager)) = 1"
proof -
  have h: "fst (poll_work (Some [''0xAA'', ''0xBB'', ''0x00ff'']) 1 one_job_manager) = Inr None"
    by code_simp
  have c: "counter one_job_manager = 1" by code_simp
  from h c poll_work_null_frame [of "Some [''0xAA'', ''0xBB'', ''0x00ff'']" 1 one_job_manager]
  show ?thesis by simp
qed






lemma run_polls_counter_from_new:
  "counter (run_polls ps new_manager) \<le> counter (run_polls qs (run_polls ps new_manager))"
  by (rule run_polls_counter) (rule run_polls_inv, rule manager_inv_new)

text \<open>
  C5. After every call of \<open>poll_work\<close> the \<^verbatim>\<open>jobs\<close> dict holds at most 20 jobs, under
  distinct ids. After 25 polls with 25 different header hashes the dict holds exactly the
  jobs made by the polls 6 to 25, under the ids \<^verbatim>\<open>0x6\<close> to \<^verbatim>\<open>0x19\<close>, and \<open>find_job\<close> by any
  of the ids \<^verbatim>\<open>0x1\<close> to \<^verbatim>\<open>0x5\<close> returns \<^verbatim>\<open>None\<close>, then and after any further polls.
\<close>

theorem cache_bound_and_eviction:
  "(\<forall>ps. length (jobs (run_polls ps new_manager)) \<le> 20
         \<and> distinct (map fst (jobs (run_polls ps new_manager))))
   \<and> (\<forall>ws :: (string list \<times> rat) list.
         length ws = 25 \<and> (\<forall>w \<in> set ws. 3 \<le> length (fst w))
         \<and> distinct (map (\<lambda>w. fst w ! 0) ws) \<longrightarrow>
         jobs (run_polls (map (\<lambda>w. (Some (fst w), snd w)) ws) new_manager) =
           map (\<lambda>i. (hex (Suc i), make_job (Suc i) (fst (ws ! i)) (snd (ws ! i)))) [5..<25]
         \<and> (\<forall>i \<in> {1..5}. \<forall>qs.
               find_job (run_polls qs (run_polls (map (\<lambda>w. (Some (fst w), snd w)) ws) new_manager))
                 (JStr (hex i)) JNull = Inr None))"
proof -
  have bound: "length (jobs (run_polls ps new_manager)) \<le> 20
         \<and> distinct (map fst (jobs (run_polls ps new_manager)))" for ps
  proof -
    have "manager_inv (run_polls ps new_manager)"
      by (rule run_polls_inv) (rule manager_inv_new)
    then show ?thesis
      by (simp add: manager_inv_length manager_inv_distinct)
  qed
  have scen: "jobs (run_polls (map (\<lambda>w. (Some (fst w), snd w)) ws) new_manager) =
           map (\<lambda>i. (hex (Suc i), make_job (Suc i) (fst (ws ! i)) (snd (ws ! i)))) [5..<25]
         \<and> (\<forall>i \<in> {1..5}. \<forall>qs.
               find_job (run_polls qs (run_polls (map (\<lambda>w. (Some (fst w), snd w)) ws) new_manager))
                 (JStr (hex i)) JNull = Inr None)"
    if len: "length ws = 25" and ok: "\<forall>w \<in> set ws. 3 \<le> length (fst w)"
      and dist: "distinct (map (\<lambda>w. fst w ! 0) ws)"
    for ws :: "(string list \<times> rat) list"
  proof -
    let ?ps = "map (\<lambda>w. (Some (fst w), snd w)) ws"
    let ?final = "run_polls ?ps new_manager"
    let ?f = "\<lambda>i. (hex (Suc i), make_job (Suc i) (fst (ws ! i)) (snd (ws ! i)))"
    note st = fresh_polls_state [OF ok dist]
    from st have "jobs ?final = drop (length ws - 20) (map ?f [0..<length ws])" by blast
    then have "jobs ?final = drop 5 (map ?f [0..<25])" by (simp only: len) simp
    also have "\<dots> = map ?f (drop 5 [0..<25])" by (rule drop_map)
    also have "drop 5 [0..<25] = [5..<25]" by (simp only: drop_upt) simp
    finally have jobs: "jobs ?final = map ?f [5..<25]" .
    from st have cnt: "counter ?final = 25" by (simp add: len)
    have gone: "find_job (run_polls qs ?final) (JStr (hex i)) JNull = Inr None"
      if i: "i \<in> {1..5}" for i qs
    proof -
      have inv: "manager_inv (run_polls qs ?final)"
        by (intro run_polls_inv manager_inv_new)
      have "counter ?final \<le> counter (run_polls qs ?final)"
        by (rule run_polls_counter_from_new)
      with cnt have "25 \<le> counter (run_polls qs ?final)" by simp
      moreover from i have "i \<le> 5" by simp
      ultimately have "i < Suc (counter (run_polls qs ?final) - 20)" by arith
      then show ?thesis
        using inv by (intro find_job_absent) simp_all
    qed
    from jobs gone show ?thesis by blast
  qed
  from bound scen show ?thesis by blast
qed


theorem cache_bound_and_eviction_witness:
  "length polls25 = 25 \<and> list_all (\<lambda>w. 3 \<le> length (fst w)) polls25
   \<and> distinct (map (\<lambda>w. fst w ! 0) polls25)
   \<and> map fst (jobs (run_polls (map (\<lambda>w. (Some (fst w), snd w)) polls25) new_manager))
        = map hex [6..<26]
   \<and> find_job (run_polls (map (\<lambda>w. (Some (fst w), snd w)) polls25) new_manager)
        (JStr ''0x5'') JNull = Inr None
   \<and> length (jobs (run_polls (map (\<lambda>w. (Some (fst w), snd w)) polls25) new_manager)) \<le> 20"
proof -
  let ?final = "run_polls (map (\<lambda>w. (Some (fst w), snd w)) polls25) new_manager"
  have h: "length polls25 = 25 \<and> (\<forall>w \<in> set polls25. 3 \<le> length (fst w))
           \<and> distinct (map (\<lambda>w. fst w ! 0) polls25)"
    by code_simp
  note T = cache_bound_and_eviction
  note S = mp [OF spec [OF conjunct2 [OF T]] h]
  from S have "map fst (jobs ?final) = map (\<lambda>i. hex (Suc i)) [5..<25]"
    by (simp add: comp_def)
  also have "\<dots> = map hex (map Suc [5..<25])" by (simp add: comp_def)
  also have "map Suc [5..<25] = [6..<26]" by (simp only: map_Suc_upt) simp
  finally have keys: "map fst (jobs ?final) = map hex [6..<26]" .
  have hx: "hex 5 = ''0x5''" by code_simp
  have "(5::nat) \<in> {1..5}" by simp
  with S have "find_job (run_polls [] ?final) (JStr (hex 5)) JNull = Inr None" by blast
  then have gone: "find_job ?final (JStr ''0x5'') JNull = Inr None" by (simp add: hx)
  from spec [OF conjunct1 [OF T]] have "length (jobs ?final) \<le> 20" by (rule conjunct1)
  moreover from conjunct1 [OF conjunct2 [OF h]]
  have "list_all (\<lambda>w. 3 \<le> length (fst w)) polls25"
    by (simp add: list_all_iff)
  ultimately show ?thesis using h keys gone by blast
qed

text \<open>
  C6, evaluated on \<open>repeat_polls\<close>: twenty polls with different header hashes and a
  twenty-first with the first hash again. The new job \<^verbatim>\<open>0x15\<close> is current and is stored under
  its id; the pruning pops the job \<^verbatim>\<open>0x1\<close> and, with it, the header-hash entry that by now
  belongs to the job \<^verbatim>\<open>0x15\<close>, so that \<open>find_job\<close> by the current header hash finds nothing.
\<close>

theorem repeated_header_entry_lost:
  "map_option header_hash (current_job (run_polls repeat_polls new_manager)) = Some ''0xa1''
   \<and> map_option job_id (current_job (run_polls repeat_polls new_manager)) = Some ''0x15''
   \<and> map_of (jobs (run_polls repeat_polls new_manager)) ''0x15''
        = current_job (run_polls repeat_polls new_manager)
   \<and> map_of (jobs (run_polls repeat_polls new_manager)) ''0x1'' = None
   \<and> map_of (by_header (run_polls repeat_polls new_manager)) ''0xa1'' = None
   \<and> find_job (run_polls repeat_polls new_manager) JNull (JStr ''0xa1'') = Inr None"
  by code_simp

lemma normalize_cases:
  "normalize v = Inl AttributeError \<or> (\<exists>x. normalize v = Inr x)"
  by (cases v) (simp_all add: normalize_def)

lemma submit_solution_result:
  assumes "submit_solution rpc nonce hh md = Inr res"
  shows "res = ''accepted'' \<or> res = ''rejected'' \<or> (\<exists>d. res = ''error: '' @ d)"
  using assms
  by (auto simp: submit_solution_def split: sum.splits rpc_reply.splits if_splits)

lemma submit_solution_not_stale:
  "submit_solution rpc nonce hh md \<noteq> Inr ''job-not-found''"
proof
  assume "submit_solution rpc nonce hh md = Inr ''job-not-found''"
  from submit_solution_result [OF this] show False by auto
qed

lemma sent_send_json:
  "sent (send_json obj s) = sent s \<or> sent (send_json obj s) = sent s @ [obj]"
  by (simp add: send_json_def split: list.splits)


lemma stratum_submit_outcome:
  "snd (stratum_submit e msg_id params s) = s
   \<or> snd (stratum_submit e msg_id params s) = send_error msg_id 24 ''Not authorized'' s
   \<or> snd (stratum_submit e msg_id params s) = send_error msg_id 21 ''Not enough parameters'' s
   \<or> snd (stratum_submit e msg_id params s)
        = send_error msg_id 21 ''Job not found, can't reconstruct submission'' s
   \<or> snd (stratum_submit e msg_id params s)
        = send_result msg_id (JBool True) (s\<lparr>shares_accepted := shares_accepted s + 1\<rparr>)
   \<or> (\<exists>res. res \<noteq> ''accepted'' \<and>
        snd (stratum_submit e msg_id params s)
        = send_error msg_id 20 (''Rejected: '' @ res)
            (s\<lparr>shares_rejected := shares_rejected s + 1\<rparr>))"
  by (simp add: stratum_submit_def submit_solution_not_stale
           split: sum.split prod.split) blast

text \<open>
  C9. \<open>submit_solution\<close> never returns the string \<^verbatim>\<open>job-not-found\<close>: what it returns is
  \<^verbatim>\<open>accepted\<close>, \<^verbatim>\<open>rejected\<close> or a string that starts with \<^verbatim>\<open>error: \<close>, whatever the
  arguments and the node. So \<open>stratum_submit\<close> never sends the reply
  \<^verbatim>\<open>[21, "Job not found (stale)", null]\<close>: it writes nothing or one line, and that line is
  another one.
\<close>

theorem submit_solution_never_stale:
  "submit_solution rpc nonce hh md \<noteq> Inr ''job-not-found''
   \<and> (\<forall>res. submit_solution rpc nonce hh md = Inr res \<longrightarrow>
          res = ''accepted'' \<or> res = ''rejected'' \<or> take 7 res = ''error: '')
   \<and> (sent (snd (stratum_submit e msg_id params s)) = sent s
        \<or> (\<exists>obj. sent (snd (stratum_submit e msg_id params s)) = sent s @ [obj]
                 \<and> obj \<noteq> error_obj msg_id 21 ''Job not found (stale)''))"
proof -
  have A: "submit_solution rpc nonce hh md \<noteq> Inr ''job-not-found''"
    by (rule submit_solution_not_stale)
  have B: "\<forall>res. submit_solution rpc nonce hh md = Inr res \<longrightarrow>
          res = ''accepted'' \<or> res = ''rejected'' \<or> take 7 res = ''error: ''"
    by (auto dest!: submit_solution_result)
  have ne1: "error_obj msg_id c m \<noteq> error_obj msg_id 21 ''Job not found (stale)''"
    if "m \<noteq> ''Job not found (stale)''" for c m
    using that by (simp add: error_obj_def)
  have ne2: "result_obj msg_id r \<noteq> error_obj msg_id 21 ''Job not found (stale)''" for r
    by (simp add: error_obj_def result_obj_def)
  have out: "sent (send_json obj t) = sent s
        \<or> (\<exists>o'. sent (send_json obj t) = sent s @ [o']
                 \<and> o' \<noteq> error_obj msg_id 21 ''Job not found (stale)'')"
    if "sent t = sent s" "obj \<noteq> error_obj msg_id 21 ''Job not found (stale)''" for obj t
    using that sent_send_json [of obj t] by auto
  have C: "sent (snd (stratum_submit e msg_id params s)) = sent s
        \<or> (\<exists>obj. sent (snd (stratum_submit e msg_id params s)) = sent s @ [obj]
                 \<and> obj \<noteq> error_obj msg_id 21 ''Job not found (stale)'')"
    using stratum_submit_outcome [of e msg_id params s]
    unfolding send_error_def send_result_def
    by (elim disjE exE conjE) (simp_all add: out ne1 ne2)
  from A B C show ?thesis by blast
qed

theorem submit_solution_never_stale_witness:
  "submit_solution (\<lambda>n h m. Raised ''timeout'') (JStr ''1a'') (JStr ''0xAA'') (JStr ''cc'')
     = Inr ''error: timeout''
   \<and> take 7 ''error: timeout'' = ''error: ''"
proof -
  have h: "submit_solution (\<lambda>n h m. Raised ''timeout'') (JStr ''1a'') (JStr ''0xAA'') (JStr ''cc'')
            = Inr ''error: timeout''"
    by code_simp
  note T = submit_solution_never_stale [where rpc = "\<lambda>n h m. Raised ''timeout''"
      and nonce = "JStr ''1a''" and hh = "JStr ''0xAA''" and md = "JStr ''cc''"]
  from mp [OF spec [OF conjunct1 [OF conjunct2 [OF T]]] h] h
  show ?thesis by simp
qed

lemma send_json_open:
  "\<not> closed s \<Longrightarrow> writer s = [] \<Longrightarrow> send_json obj s = s\<lparr>sent := sent s @ [obj]\<rparr>"
  by (simp add: send_json_def)

lemma send_json_frame [simp]:
  "shares_accepted (send_json obj s) = shares_accepted s"
  "shares_rejected (send_json obj s) = shares_rejected s"
  "protocol (send_json obj s) = protocol s"
  "authorized (send_json obj s) = authorized s"
  by (simp_all add: send_json_def split: list.splits)

lemma send_json_writer [simp]: "writer s = [] \<Longrightarrow> writer (send_json obj s) = []"
  by (simp add: send_json_def)

lemma send_json_closed [simp]: "writer s = [] \<Longrightarrow> closed (send_json obj s) = closed s"
  by (simp add: send_json_def)

lemma send_stratum_job_frame [simp]:
  "shares_accepted (snd (send_stratum_job job clean s)) = shares_accepted s"
  "shares_rejected (snd (send_stratum_job job clean s)) = shares_rejected s"
  "protocol (snd (send_stratum_job job clean s)) = protocol s"
  by (simp_all add: send_stratum_job_def send_notification_def split: option.splits)

lemma send_stratum_job_writer [simp]:
  "writer s = [] \<Longrightarrow> writer (snd (send_stratum_job job clean s)) = []"
  by (simp add: send_stratum_job_def send_notification_def split: option.splits)

lemma push_current_frame [simp]:
  "shares_accepted (snd (push_current e s)) = shares_accepted s"
  "shares_rejected (snd (push_current e s)) = shares_rejected s"
  "protocol (snd (push_current e s)) = protocol s"
  by (simp_all add: push_current_def split: option.splits)

lemma push_current_writer [simp]:
  "writer s = [] \<Longrightarrow> writer (snd (push_current e s)) = []"
  by (simp add: push_current_def split: option.splits)

lemma broadcast_frame [simp]:
  "shares_accepted (broadcast job s) = shares_accepted s"
  "shares_rejected (broadcast job s) = shares_rejected s"
  "protocol (broadcast job s) = protocol s"
  by (simp_all add: broadcast_def send_new_work_def send_ethproxy_job_def send_notification_def)

lemma broadcast_writer [simp]: "writer s = [] \<Longrightarrow> writer (broadcast job s) = []"
  by (simp add: broadcast_def send_new_work_def send_ethproxy_job_def send_notification_def)

lemma close_frame [simp]:
  "shares_accepted (close s) = shares_accepted s"
  "shares_rejected (close s) = shares_rejected s"
  "protocol (close s) = protocol s"
  "sent (close s) = sent s"
  "closed (close s)"
  by (simp_all add: close_def)





lemma authorize_shares [simp]:
  "shares_accepted (snd (stratum_authorize e msg_id params s)) = shares_accepted s"
  "shares_rejected (snd (stratum_authorize e msg_id params s)) = shares_rejected s"
  by (simp_all add: stratum_authorize_def send_result_def split: sum.splits)

lemma authorize_writer [simp]:
  "writer s = [] \<Longrightarrow> writer (snd (stratum_authorize e msg_id params s)) = []"
  by (simp add: stratum_authorize_def send_result_def split: sum.splits)

lemma subscribe_shares [simp]:
  "shares_accepted (snd (stratum_subscribe e msg_id params s)) = shares_accepted s"
  "shares_rejected (snd (stratum_subscribe e msg_id params s)) = shares_rejected s"
  by (simp_all add: stratum_subscribe_def send_result_def Let_def split: sum.splits)

lemma subscribe_writer [simp]:
  "writer s = [] \<Longrightarrow> writer (snd (stratum_subscribe e msg_id params s)) = []"
  by (simp add: stratum_subscribe_def send_result_def Let_def split: sum.splits)

lemma login_shares [simp]:
  "shares_accepted (snd (ethproxy_login msg_id params s)) = shares_accepted s"
  "shares_rejected (snd (ethproxy_login msg_id params s)) = shares_rejected s"
  by (simp_all add: ethproxy_login_def send_result_def Let_def split: sum.splits)

lemma login_writer [simp]:
  "writer s = [] \<Longrightarrow> writer (snd (ethproxy_login msg_id params s)) = []"
  by (simp add: ethproxy_login_def send_result_def Let_def split: sum.splits)

lemma getwork_frame [simp]:
  "shares_accepted (snd (ethproxy_getwork e msg_id s)) = shares_accepted s"
  "shares_rejected (snd (ethproxy_getwork e msg_id s)) = shares_rejected s"
  "protocol (snd (ethproxy_getwork e msg_id s)) = protocol s"
  by (simp_all add: ethproxy_getwork_def send_result_def send_error_def split: option.splits)

lemma getwork_writer [simp]:
  "writer s = [] \<Longrightarrow> writer (snd (ethproxy_getwork e msg_id s)) = []"
  by (simp add: ethproxy_getwork_def send_result_def send_error_def split: option.splits)

lemma hashrate_frame [simp]:
  "shares_accepted (snd (ethproxy_hashrate msg_id params s)) = shares_accepted s"
  "shares_rejected (snd (ethproxy_hashrate msg_id params s)) = shares_rejected s"
  "protocol (snd (ethproxy_hashrate msg_id params s)) = protocol s"
  by (simp_all add: ethproxy_hashrate_def send_result_def split: sum.splits)

lemma hashrate_writer [simp]:
  "writer s = [] \<Longrightarrow> writer (snd (ethproxy_hashrate msg_id params s)) = []"
  by (simp add: ethproxy_hashrate_def send_result_def split: sum.splits)

lemma submitwork_protocol [simp]:
  "protocol (snd (ethproxy_submitwork e msg_id params s)) = protocol s"
  by (simp add: ethproxy_submitwork_def send_result_def send_error_def
           split: sum.split prod.split)

lemma submit_protocol [simp]:
  "protocol (snd (stratum_submit e msg_id params s)) = protocol s"
  by (simp add: stratum_submit_def send_result_def send_error_def
           split: sum.split prod.split)

lemma submitwork_writer [simp]:
  "writer s = [] \<Longrightarrow> writer (snd (ethproxy_submitwork e msg_id params s)) = []"
  by (simp add: ethproxy_submitwork_def send_result_def send_error_def
           split: sum.split prod.split)

lemma submit_writer [simp]:
  "writer s = [] \<Longrightarrow> writer (snd (stratum_submit e msg_id params s)) = []"
  by (simp add: stratum_submit_def send_result_def send_error_def
           split: sum.split prod.split)

lemma dispatch_not_object:
  "(\<forall>kvs. msg \<noteq> JObj kvs) \<Longrightarrow> dispatch e msg s = (Some AttributeError, s)"
  by (cases msg) (simp_all add: dispatch_def msg_get_def)

lemma method_of_not_object: "(\<forall>kvs. msg \<noteq> JObj kvs) \<Longrightarrow> method_of msg = JNull"
  by (cases msg) (simp_all add: method_of_def msg_get_def)



lemma dispatch_submitwork:
  "method_of msg = JStr ''eth_submitWork'' \<Longrightarrow>
   \<exists>msg_id params. dispatch e msg s = ethproxy_submitwork e msg_id params s"
  by (cases msg) (auto simp: dispatch_def msg_get_def method_of_def)

lemma dispatch_submit:
  "method_of msg = JStr ''mining.submit'' \<Longrightarrow>
   \<exists>msg_id params. dispatch e msg s = stratum_submit e msg_id params s"
  by (cases msg) (auto simp: dispatch_def msg_get_def method_of_def)


lemma serve_one:
  "\<not> closed s \<Longrightarrow>
   serve [Recv e msg] s =
     (case fst (dispatch e msg s) of
        Some x \<Rightarrow> close (snd (dispatch e msg s))
      | None \<Rightarrow> snd (dispatch e msg s))"
  by (simp split: prod.splits option.splits)









text \<open>
  C3, evaluated: an authorized session receives \<^verbatim>\<open>mining.submit\<close> with three params and a
  job id that is not in the cache. The session writes the error 21
  \<^verbatim>\<open>Job not found, can't reconstruct submission\<close> and stays open, and \<open>shares_rejected\<close> is
  still 0: the handler returns before any counter is touched.
\<close>

theorem unknown_job_reply_not_counted:
  "find_job (manager accepting_env) (JStr ''0x9'') JNull = Inr None
   \<and> authorized (serve [Recv accepting_env authorize_msg] (new_session []))
   \<and> sent (serve [Recv accepting_env authorize_msg, Recv accepting_env stale_submit]
        (new_session []))
      = sent (serve [Recv accepting_env authorize_msg] (new_session []))
        @ [error_obj (JNum 4) 21 ''Job not found, can't reconstruct submission'']
   \<and> shares_rejected (serve [Recv accepting_env authorize_msg, Recv accepting_env stale_submit]
        (new_session [])) = 0
   \<and> shares_accepted (serve [Recv accepting_env authorize_msg, Recv accepting_env stale_submit]
        (new_session [])) = 0
   \<and> \<not> closed (serve [Recv accepting_env authorize_msg, Recv accepting_env stale_submit]
        (new_session []))"
  by code_simp

text \<open>
  C4, evaluated: an authorized session receives \<^verbatim>\<open>mining.submit\<close> with three params for the
  cached job \<^verbatim>\<open>0x1\<close>. The header hash is taken from the job and \<^verbatim>\<open>mix_digest\<close> is \<^verbatim>\<open>None\<close>;
  \<open>submit_solution\<close> raises AttributeError on it in the prefix normalisation, before the
  node is called. The exception leaves \<open>dispatch\<close>, no reply is written, and the serving
  loop ends with the session closed.
\<close>

theorem incomplete_submit_raises:
  "find_job (manager accepting_env) (JStr ''0x1'') JNull = Inr (Some usual_job)
   \<and> submit_solution (upstream accepting_env) (JStr ''0x1234'') (JStr ''0xAA'') JNull
        = Inl AttributeError
   \<and> \<not> closed (serve [Recv accepting_env authorize_msg] (new_session []))
   \<and> dispatch accepting_env short_submit
        (serve [Recv accepting_env authorize_msg] (new_session []))
      = (Some AttributeError, serve [Recv accepting_env authorize_msg] (new_session []))
   \<and> sent (serve [Recv accepting_env authorize_msg, Recv accepting_env short_submit]
        (new_session []))
      = sent (serve [Recv accepting_env authorize_msg] (new_session []))
   \<and> closed (serve [Recv accepting_env authorize_msg, Recv accepting_env short_submit]
        (new_session []))"
  by code_simp

lemma ethproxy_submitwork_outcome:
  "snd (ethproxy_submitwork e msg_id params s) = s
   \<or> snd (ethproxy_submitwork e msg_id params s)
        = send_error msg_id (- 1) ''Need [nonce, headerHash, mixDigest]'' s
   \<or> snd (ethproxy_submitwork e msg_id params s)
        = send_result msg_id (JBool True) (s\<lparr>shares_accepted := shares_accepted s + 1\<rparr>)
   \<or> (\<exists>res. snd (ethproxy_submitwork e msg_id params s)
        = send_error msg_id (- 1) (''Rejected: '' @ res)
            (s\<lparr>shares_rejected := shares_rejected s + 1\<rparr>))"
  by (simp add: ethproxy_submitwork_def split: sum.split prod.split) blast

lemma precheck_facts:
  "precheck_reply (error_obj msg_id 24 ''Not authorized'')"
  "precheck_reply (error_obj msg_id 21 ''Not enough parameters'')"
  "precheck_reply (error_obj msg_id (- 1) ''Need [nonce, headerHash, mixDigest]'')"
  "\<not> precheck_reply (result_obj msg_id r)"
  "\<not> precheck_reply (error_obj msg_id 20 m)"
  "\<not> precheck_reply (error_obj msg_id (- 1) (CHR ''R'' # m))"
  by (simp_all add: precheck_reply_def error_of_def error_obj_def result_obj_def)

lemma unknown_job_facts:
  "unknown_job_reply (error_obj msg_id 21 ''Job not found, can't reconstruct submission'')"
  by (simp add: unknown_job_reply_def error_of_def error_obj_def)

lemma stratum_submit_count:
  assumes "\<not> closed s" "writer s = []"
    and "\<forall>r \<in> set (drop (length (sent s)) (sent (snd (stratum_submit e msg_id params s)))).
           \<not> unknown_job_reply r"
  shows "shares (snd (stratum_submit e msg_id params s)) =
         shares s + length (filter (\<lambda>r. \<not> precheck_reply r)
           (drop (length (sent s)) (sent (snd (stratum_submit e msg_id params s)))))"
  using stratum_submit_outcome [of e msg_id params s] assms
  by (elim disjE exE conjE)
     (simp_all add: send_error_def send_result_def send_json_open shares_def
        precheck_facts unknown_job_facts)

lemma ethproxy_submitwork_count:
  assumes "\<not> closed s" "writer s = []"
  shows "shares (snd (ethproxy_submitwork e msg_id params s)) =
         shares s + length (filter (\<lambda>r. \<not> precheck_reply r)
           (drop (length (sent s)) (sent (snd (ethproxy_submitwork e msg_id params s)))))"
  using ethproxy_submitwork_outcome [of e msg_id params s] assms
  by (elim disjE exE conjE)
     (simp_all add: send_error_def send_result_def send_json_open shares_def precheck_facts)

lemma dispatch_writer:
  "writer s = [] \<Longrightarrow> writer (snd (dispatch e msg s)) = []"
  by (cases msg) (simp_all add: dispatch_def msg_get_def send_result_def)

lemma dispatch_shares_other:
  assumes "\<not> is_submit msg"
  shows "shares (snd (dispatch e msg s)) = shares s"
proof (cases msg)
  case (JObj kvs)
  with assms show ?thesis
    by (simp add: dispatch_def msg_get_def method_of_def is_submit_def shares_def
          send_result_def)
qed (simp_all add: dispatch_def msg_get_def)

lemma dispatch_shares_submit:
  assumes "is_submit msg" "\<not> closed s" "writer s = []"
    and "\<forall>r \<in> set (drop (length (sent s)) (sent (snd (dispatch e msg s)))).
           \<not> unknown_job_reply r"
  shows "shares (snd (dispatch e msg s)) =
         shares s + length (filter (\<lambda>r. \<not> precheck_reply r)
           (drop (length (sent s)) (sent (snd (dispatch e msg s)))))"
proof -
  from assms(1) consider "method_of msg = JStr ''eth_submitWork''"
    | "method_of msg = JStr ''mining.submit''"
    by (auto simp: is_submit_def)
  then show ?thesis
  proof cases
    case 1
    from dispatch_submitwork [OF 1] obtain msg_id params
      where d: "dispatch e msg s = ethproxy_submitwork e msg_id params s" by blast
    show ?thesis
      unfolding d using assms(2,3) by (rule ethproxy_submitwork_count)
  next
    case 2
    from dispatch_submit [OF 2] obtain msg_id params
      where d: "dispatch e msg s = stratum_submit e msg_id params s" by blast
    show ?thesis
      using assms(4) unfolding d by (rule stratum_submit_count [OF assms(2,3)])
  qed
qed

lemma shares_broadcast [simp]: "shares (broadcast job s) = shares s"
  by (simp add: shares_def)

lemma shares_close [simp]: "shares (close s) = shares s"
  by (simp add: shares_def)

lemma shares_serve:
  "writer s = [] \<Longrightarrow> \<forall>r \<in> set (submit_replies evs s). \<not> unknown_job_reply r \<Longrightarrow>
   shares (serve evs s) =
   shares s + length (filter (\<lambda>r. \<not> precheck_reply r) (submit_replies evs s))"
proof (induction evs arbitrary: s)
  case Nil
  show ?case by simp
next
  case (Cons ev evs)
  show ?case
  proof (cases ev)
    case (Push job)
    have "shares (serve evs (broadcast job s)) =
          shares (broadcast job s)
          + length (filter (\<lambda>r. \<not> precheck_reply r) (submit_replies evs (broadcast job s)))"
      using Cons.prems by (intro Cons.IH) (simp_all add: Push)
    then show ?thesis by (simp add: Push)
  next
    case (Recv e msg)
    show ?thesis
    proof (cases "closed s")
      case True
      then show ?thesis by (simp add: Recv)
    next
      case False
      let ?s' = "snd (dispatch e msg s)"
      let ?new = "if is_submit msg then drop (length (sent s)) (sent ?s') else []"
      let ?rest = "case fst (dispatch e msg s) of Some x \<Rightarrow> [] | None \<Rightarrow> submit_replies evs ?s'"
      have reps: "submit_replies (ev # evs) s = ?new @ ?rest"
        using False by (simp add: Recv)
      from Cons.prems(2)
      have both: "(\<forall>r \<in> set ?new. \<not> unknown_job_reply r)
                  \<and> (\<forall>r \<in> set ?rest. \<not> unknown_job_reply r)"
        by (simp only: reps set_append ball_Un)
      from both have clean_new: "\<forall>r \<in> set ?new. \<not> unknown_job_reply r"
        by (rule conjunct1)
      from both have clean_rest: "\<forall>r \<in> set ?rest. \<not> unknown_job_reply r"
        by (rule conjunct2)
      have step: "shares ?s' = shares s + length (filter (\<lambda>r. \<not> precheck_reply r) ?new)"
      proof (cases "is_submit msg")
        case True
        with clean_new have "\<forall>r \<in> set (drop (length (sent s)) (sent ?s')). \<not> unknown_job_reply r"
          by simp
        from dispatch_shares_submit [OF True False Cons.prems(1) this] True
        show ?thesis by simp
      next
        case no: False
        then show ?thesis by (simp add: dispatch_shares_other)
      qed
      have w': "writer ?s' = []" using Cons.prems(1) by (rule dispatch_writer)
      show ?thesis
      proof (cases "fst (dispatch e msg s)")
        case None
        with clean_rest have "\<forall>r \<in> set (submit_replies evs ?s'). \<not> unknown_job_reply r"
          by simp
        from Cons.IH [OF w' this]
        have "shares (serve evs ?s') =
              shares ?s' + length (filter (\<lambda>r. \<not> precheck_reply r) (submit_replies evs ?s'))" .
        moreover have "serve (ev # evs) s = serve evs ?s'"
          using False None by (cases "dispatch e msg s") (simp add: Recv)
        ultimately show ?thesis
          using None by (simp only: reps step) simp
      next
        case (Some x)
        have "serve (ev # evs) s = close ?s'"
          using False Some by (cases "dispatch e msg s") (simp add: Recv)
        then show ?thesis
          using Some step by (simp add: reps)
      qed
    qed
  qed
qed

text \<open>
  C2, as the code has it. On a connection whose writes succeed, after any sequence of
  requests and broadcasts in which no \<^verbatim>\<open>Job not found, can't reconstruct submission\<close> reply
  was written, \<open>shares_accepted + shares_rejected\<close> has grown by the number of replies
  written to submit requests, not counting the replies \<^verbatim>\<open>Not authorized\<close>,
  \<^verbatim>\<open>Not enough parameters\<close> and \<^verbatim>\<open>Need [nonce, headerHash, mixDigest]\<close>.
\<close>

theorem shares_count_forwarded:
  "writer s = [] \<and> (\<forall>r \<in> set (submit_replies evs s). \<not> unknown_job_reply r) \<longrightarrow>
   shares_accepted (serve evs s) + shares_rejected (serve evs s) =
   shares_accepted s + shares_rejected s
   + length (filter (\<lambda>r. \<not> precheck_reply r) (submit_replies evs s))"
  using shares_serve [of s evs] by (simp add: shares_def)

theorem shares_count_forwarded_witness:
  "writer (new_session []) = []
   \<and> list_all (\<lambda>r. \<not> unknown_job_reply r)
        (submit_replies
          [Recv accepting_env short_submit, Recv accepting_env authorize_msg,
           Recv accepting_env full_submit] (new_session []))
   \<and> submit_replies
        [Recv accepting_env short_submit, Recv accepting_env authorize_msg,
         Recv accepting_env full_submit] (new_session [])
      = [error_obj (JNum 5) 24 ''Not authorized'', result_obj (JNum 6) (JBool True)]
   \<and> shares_accepted (serve
        [Recv accepting_env short_submit, Recv accepting_env authorize_msg,
         Recv accepting_env full_submit] (new_session []))
      + shares_rejected (serve
        [Recv accepting_env short_submit, Recv accepting_env authorize_msg,
         Recv accepting_env full_submit] (new_session [])) = 1"
proof -
  let ?evs = "[Recv accepting_env short_submit, Recv accepting_env authorize_msg,
               Recv accepting_env full_submit]"
  have h: "writer (new_session []) = []
           \<and> (\<forall>r \<in> set (submit_replies ?evs (new_session [])). \<not> unknown_job_reply r)"
    by code_simp
  have reps: "submit_replies ?evs (new_session [])
      = [error_obj (JNum 5) 24 ''Not authorized'', result_obj (JNum 6) (JBool True)]"
    by code_simp
  have n: "shares_accepted (new_session []) + shares_rejected (new_session [])
           + length (filter (\<lambda>r. \<not> precheck_reply r) (submit_replies ?evs (new_session []))) = 1"
    by code_simp
  note T = mp [OF shares_count_forwarded [where s = "new_session []" and evs = ?evs] h]
  from T n have "shares_accepted (serve ?evs (new_session []))
      + shares_rejected (serve ?evs (new_session [])) = 1"
    by (rule trans)
  moreover from conjunct2 [OF h] have "list_all (\<lambda>r. \<not> unknown_job_reply r)
      (submit_replies ?evs (new_session []))"
    by (simp add: list_all_iff)
  ultimately show ?thesis using h reps by blast
qed

text \<open>
  C2, as the specification has it, fails: a fresh session that receives \<^verbatim>\<open>mining.submit\<close>
  writes one reply, \<^verbatim>\<open>Not authorized\<close>, to that submit request, and both counters stay 0.
\<close>

theorem precheck_reply_not_counted:
  "submit_replies [Recv accepting_env short_submit] (new_session [])
     = [error_obj (JNum 5) 24 ''Not authorized'']
   \<and> shares_accepted (serve [Recv accepting_env short_submit] (new_session []))
     + shares_rejected (serve [Recv accepting_env short_submit] (new_session [])) = 0
   \<and> shares_accepted (serve [Recv accepting_env short_submit] (new_session []))
     + shares_rejected (serve [Recv accepting_env short_submit] (new_session []))
     \<noteq> length (submit_replies [Recv accepting_env short_submit] (new_session []))"
  by code_simp

end
